theory Spec2Isabelle
  imports Main "HOL-Library.Word" "HOL-Library.Signed_Division"
begin

section \<open>The Yoda scheduler plugin (pkg/yoda/scheduler.go)\<close>

subsection \<open>Framework values used by the plugin\<close>

text \<open>
  Go's \<^verbatim>\<open>int64\<close> is a 64-bit two's-complement integer: \<open>+\<close>, \<open>-\<close> and \<open>*\<close> wrap
  around, comparison is signed (\<open>word_sless\<close>), and \<^verbatim>\<open>/\<close> truncates towards zero and
  panics on a zero divisor.
\<close>

type_synonym int64 = "64 word"

datatype panic = IndexOutOfRange | IntegerDivideByZero

definition div_int64 :: "int64 \<Rightarrow> int64 \<Rightarrow> panic + int64" where
  "div_int64 a b =
     (if b = 0 then Inl IntegerDivideByZero else Inr (word_of_int (sint a sdiv sint b)))"

text \<open>\<^verbatim>\<open>framework.Code\<close> (the codes this file uses) and \<^verbatim>\<open>framework.Status\<close>.\<close>

datatype Code = Success | Error | Unschedulable

record Status =
  code :: Code
  message :: string

definition NewStatus :: "Code \<Rightarrow> string \<Rightarrow> Status" where
  "NewStatus c msg = \<lparr>code = c, message = msg\<rparr>"

text \<open>\<^verbatim>\<open>framework.MaxNodeScore\<close>, the largest score the framework accepts.\<close>

definition MaxNodeScore :: int64 where
  "MaxNodeScore = 100"

text \<open>\<^verbatim>\<open>framework.NodeScore\<close>: a node name and its score.\<close>

record NodeScore =
  ns_Name :: string
  ns_Score :: int64

type_synonym NodeScoreList = "NodeScore list"

subsection \<open>NormalizeScore\<close>

text \<open>
  The first loop of \<^verbatim>\<open>NormalizeScore\<close>: one pass over the list that lowers \<open>lowest\<close>
  and raises \<open>highest\<close>, both compared as signed integers.
\<close>

fun bounds_loop :: "NodeScoreList \<Rightarrow> int64 \<times> int64 \<Rightarrow> int64 \<times> int64" where
  "bounds_loop [] (highest, lowest) = (highest, lowest)"
| "bounds_loop (nodeScore # rest) (highest, lowest) =
     bounds_loop rest
       (if word_sless highest (ns_Score nodeScore) then ns_Score nodeScore else highest,
        if word_sless (ns_Score nodeScore) lowest then ns_Score nodeScore else lowest)"

text \<open>
  The declarations and the first loop together: \<open>highest\<close> starts at 0, \<open>lowest\<close> at
  \<^verbatim>\<open>scores[0].Score\<close>, which panics on the empty list. The result is the pair
  \<open>(highest, lowest)\<close> as it stands after the loop.
\<close>

definition bounds :: "NodeScoreList \<Rightarrow> panic + (int64 \<times> int64)" where
  "bounds scores =
     (case scores of
        [] \<Rightarrow> Inl IndexOutOfRange
      | first # _ \<Rightarrow> Inr (bounds_loop scores (0, ns_Score first)))"

text \<open>
  The second loop: every entry gets
  \<^verbatim>\<open>(nodeScore.Score - lowest) * framework.MaxNodeScore / (highest - lowest)\<close>
  as its new score; the name is left alone.
\<close>

fun rewrite_loop :: "int64 \<Rightarrow> int64 \<Rightarrow> NodeScoreList \<Rightarrow> panic + NodeScoreList" where
  "rewrite_loop lowest highest [] = Inr []"
| "rewrite_loop lowest highest (nodeScore # rest) =
     (case div_int64 ((ns_Score nodeScore - lowest) * MaxNodeScore) (highest - lowest) of
        Inl p \<Rightarrow> Inl p
      | Inr v \<Rightarrow>
          (case rewrite_loop lowest highest rest of
             Inl p \<Rightarrow> Inl p
           | Inr rest' \<Rightarrow> Inr (nodeScore\<lparr>ns_Score := v\<rparr> # rest')))"

definition NormalizeScore :: "NodeScoreList \<Rightarrow> panic + (NodeScoreList \<times> Status)" where
  "NormalizeScore scores =
     (case bounds scores of
        Inl p \<Rightarrow> Inl p
      | Inr (highest, lowest0) \<Rightarrow>
          (let lowest = (if highest = lowest0 then lowest0 - 1 else lowest0)
           in case rewrite_loop lowest highest scores of
                Inl p \<Rightarrow> Inl p
              | Inr scores' \<Rightarrow> Inr (scores', NewStatus Success '''')))"

text \<open>
  Two abbreviations used in the statements below: the value the second loop's
  expression has when the divisor is not zero, and the scores of a list read as signed
  integers.
\<close>

definition rescale :: "int64 \<Rightarrow> int64 \<Rightarrow> int64 \<Rightarrow> int64" where
  "rescale lowest highest s =
     word_of_int (sint ((s - lowest) * MaxNodeScore) sdiv sint (highest - lowest))"

definition score_values :: "NodeScoreList \<Rightarrow> int list" where
  "score_values scores = map (\<lambda>n. sint (ns_Score n)) scores"

subsection \<open>Inventory, requests and the fitness helpers\<close>

text \<open>
  Modelled from the spec: the inventory type \<^verbatim>\<open>scv.Scv\<close> and the workload's parsed
  request are declared outside this file. Spec section 3 gives them as a
  DeviceInventory (an ordered sequence of Device entries, each with \<open>count\<close>,
  \<open>memoryPerUnit\<close> and \<open>clockPerUnit\<close>, all non-negative) and a ResourceRequest
  (requested device count, memory-per-unit floor, clock-per-unit floor).
\<close>

record Device =
  count :: nat
  memoryPerUnit :: nat
  clockPerUnit :: nat

type_synonym DeviceInventory = "Device list"

record Pod =
  pod_Name :: string
  req_count :: nat
  req_memoryPerUnit :: nat
  req_clockPerUnit :: nat

text \<open>\<^verbatim>\<open>nodeinfo.NodeInfo\<close>: the plugin reads only \<^verbatim>\<open>node.Node().Name\<close>.\<close>

record NodeInfo =
  node_Name :: string

text \<open>
  Modelled from the spec: \<^verbatim>\<open>filter.PodFitsNumber\<close> is not in scheduler.go. Spec 4.1:
  it selects the first Device entry whose free \<open>count\<close> is at least the requested
  device count and returns its index; if there is none it returns \<open>fits = false\<close>.
\<close>

fun first_fit :: "nat \<Rightarrow> DeviceInventory \<Rightarrow> nat option" where
  "first_fit n [] = None"
| "first_fit n (d # ds) =
     (if n \<le> count d then Some 0 else map_option Suc (first_fit n ds))"

definition PodFitsNumber :: "Pod \<Rightarrow> DeviceInventory \<Rightarrow> bool \<times> nat" where
  "PodFitsNumber pod inventory =
     (case first_fit (req_count pod) inventory of
        None \<Rightarrow> (False, 0)
      | Some i \<Rightarrow> (True, i))"

text \<open>
  Modelled from the spec: \<^verbatim>\<open>filter.PodFitsMemory\<close> and \<^verbatim>\<open>filter.PodFitsClock\<close> are
  not in scheduler.go. Spec 4.1: memory fitness is
  \<open>matchedDevice.memoryPerUnit \<ge> request.memoryPerUnit\<close>, clock fitness is
  \<open>matchedDevice.clockPerUnit \<ge> request.clockPerUnit\<close>, both on the device at the
  matched index. The second result of each, which Filter discards, is left out.
\<close>

definition PodFitsMemory :: "nat \<Rightarrow> Pod \<Rightarrow> DeviceInventory \<Rightarrow> bool" where
  "PodFitsMemory number pod inventory =
     (number < length inventory \<and>
      req_memoryPerUnit pod \<le> memoryPerUnit (inventory ! number))"

definition PodFitsClock :: "nat \<Rightarrow> Pod \<Rightarrow> DeviceInventory \<Rightarrow> bool" where
  "PodFitsClock number pod inventory =
     (number < length inventory \<and>
      req_clockPerUnit pod \<le> clockPerUnit (inventory ! number))"

subsection \<open>The plugin and its collaborators\<close>

text \<open>
  The inventory store (\<^verbatim>\<open>scvClient.Get\<close>) and the node snapshot
  (\<^verbatim>\<open>handle.SnapshotSharedLister().NodeInfos().Get\<close>) are external: each is a lookup
  by node name that answers with a value or with an error, kept here by its
  \<^verbatim>\<open>err.Error()\<close> text.
\<close>

record Yoda =
  handle :: "string \<Rightarrow> string + NodeInfo"
  scvClient :: "string \<Rightarrow> string + DeviceInventory"

subsection \<open>Filter\<close>

text \<open>The helper calls a run of Filter makes, in the order it makes them.\<close>

datatype helper_call = CallPodFitsNumber | CallPodFitsMemory | CallPodFitsClock

text \<open>
  Filter returns its status; the second component records which of the three fitness
  helpers the run called.
\<close>

definition Filter :: "Yoda \<Rightarrow> Pod \<Rightarrow> NodeInfo \<Rightarrow> Status \<times> helper_call list" where
  "Filter y pod node =
     (case scvClient y (node_Name node) of
        Inl err \<Rightarrow>
          (NewStatus Unschedulable (''Node:'' @ node_Name node @ '' '' @ err), [])
      | Inr currentScv \<Rightarrow>
          (let (ok, number) = PodFitsNumber pod currentScv in
           if ok then
             (let isFitsMemory = PodFitsMemory number pod currentScv;
                  isFitsClock = PodFitsClock number pod currentScv;
                  calls = [CallPodFitsNumber, CallPodFitsMemory, CallPodFitsClock]
              in if isFitsMemory \<and> isFitsClock
                 then (NewStatus Success '''', calls)
                 else (NewStatus Unschedulable (''Node:'' @ node_Name node), calls))
           else (NewStatus Unschedulable (''Node:'' @ node_Name node), [CallPodFitsNumber])))"

subsection \<open>Less\<close>

text \<open>
  Modelled from the spec: \<^verbatim>\<open>sort.Less\<close> is not in scheduler.go. Spec 4.5 leaves the
  ordering key to policy and names one: declared priority, then arrival time. The
  model takes that key: the workload with the higher declared priority comes first,
  and among equal priorities the one that arrived earlier.
\<close>

record PodInfo =
  pi_priority :: int
  pi_timestamp :: nat

definition sort_Less :: "PodInfo \<Rightarrow> PodInfo \<Rightarrow> bool" where
  "sort_Less podInfo1 podInfo2 =
     (pi_priority podInfo2 < pi_priority podInfo1 \<or>
      (pi_priority podInfo1 = pi_priority podInfo2 \<and>
       pi_timestamp podInfo1 < pi_timestamp podInfo2))"

definition Less :: "PodInfo \<Rightarrow> PodInfo \<Rightarrow> bool" where
  "Less podInfo1 podInfo2 = sort_Less podInfo1 podInfo2"

subsection \<open>Score\<close>

text \<open>
  Modelled from the spec: the CycleState (spec section 3) maps a dimension name
  (device-count, memory, clock) to the maximum the Aggregator recorded for it.
\<close>

datatype dimension = DeviceCount | Memory | Clock

type_synonym CycleState = "dimension \<rightharpoonup> nat"

text \<open>
  Modelled from the spec: \<^verbatim>\<open>score.CalculateScore\<close> is not in scheduler.go. Spec 4.3:
  it reads the three maxima from the CycleState; a missing maximum is an error
  (AggregationMissing in spec section 7), never defaulted. The spec leaves the
  combination of the three ratios open, so it is the parameter \<open>combine\<close>, applied to
  the three maxima once all are present.
\<close>

definition CalculateScore ::
  "(nat \<Rightarrow> nat \<Rightarrow> nat \<Rightarrow> DeviceInventory \<Rightarrow> Pod \<Rightarrow> NodeInfo \<Rightarrow> 64 word) \<Rightarrow>
   DeviceInventory \<Rightarrow> CycleState \<Rightarrow> Pod \<Rightarrow> NodeInfo \<Rightarrow> string + 64 word" where
  "CalculateScore combine inventory state pod info =
     (case state DeviceCount of
        None \<Rightarrow> Inl ''AggregationMissing''
      | Some maxCount \<Rightarrow>
          (case state Memory of
             None \<Rightarrow> Inl ''AggregationMissing''
           | Some maxMemory \<Rightarrow>
               (case state Clock of
                  None \<Rightarrow> Inl ''AggregationMissing''
                | Some maxClock \<Rightarrow>
                    Inr (combine maxCount maxMemory maxClock inventory pod info))))"

text \<open>
  Score. \<open>fmt_q\<close> stands for the \<^verbatim>\<open>%q\<close> verb of \<^verbatim>\<open>fmt.Sprintf\<close> and \<open>Uint64ToInt64\<close>
  for \<^verbatim>\<open>filter.Uint64ToInt64\<close>, about which the spec says nothing; both are
  parameters.
\<close>

definition Score ::
  "Yoda \<Rightarrow> (string \<Rightarrow> string) \<Rightarrow>
   (nat \<Rightarrow> nat \<Rightarrow> nat \<Rightarrow> DeviceInventory \<Rightarrow> Pod \<Rightarrow> NodeInfo \<Rightarrow> 64 word) \<Rightarrow>
   (64 word \<Rightarrow> int64) \<Rightarrow> CycleState \<Rightarrow> Pod \<Rightarrow> string \<Rightarrow> int64 \<times> Status" where
  "Score y fmt_q combine Uint64ToInt64 state p nodeName =
     (case handle y nodeName of
        Inl err \<Rightarrow>
          (0, NewStatus Error
                (''getting node '' @ fmt_q nodeName @ '' from Snapshot: '' @ err))
      | Inr nodeInfo \<Rightarrow>
          (case scvClient y nodeName of
             Inl err \<Rightarrow> (0, NewStatus Error (''Score Node Error: '' @ err))
           | Inr currentScv \<Rightarrow>
               (case CalculateScore combine currentScv state p nodeInfo of
                  Inl err \<Rightarrow> (0, NewStatus Error (''Score Node Error: '' @ err))
                | Inr uNodeScore \<Rightarrow>
                    (Uint64ToInt64 uNodeScore, NewStatus Success ''''))))"

section \<open>Properties of NormalizeScore\<close>

subsection \<open>The two loops\<close>

lemma rewrite_loop_total:
  "highest \<noteq> lowest \<Longrightarrow>
   rewrite_loop lowest highest scores =
     Inr (map (\<lambda>n. n\<lparr>ns_Score := rescale lowest highest (ns_Score n)\<rparr>) scores)"
  by (induction scores) (simp_all add: div_int64_def rescale_def)

lemma bounds_loop_highest:
  "sint (fst (bounds_loop xs (h, l))) = fold max (score_values xs) (sint h)"
proof (induction xs arbitrary: h l)
  case Nil
  show ?case by (simp add: score_values_def)
next
  case (Cons x xs)
  show ?case
    using Cons.IH by (simp add: score_values_def word_sless_alt max_def)
qed

lemma bounds_loop_lowest:
  "sint (snd (bounds_loop xs (h, l))) = fold min (score_values xs) (sint l)"
proof (induction xs arbitrary: h l)
  case Nil
  show ?case by (simp add: score_values_def)
next
  case (Cons x xs)
  show ?case
    using Cons.IH by (simp add: score_values_def word_sless_alt min_def)
qed

lemma bounds_nonempty:
  assumes "scores \<noteq> []"
  shows "\<exists>highest lowest. bounds scores = Inr (highest, lowest) \<and>
           sint highest = max 0 (Max (set (score_values scores))) \<and>
           sint lowest = Min (set (score_values scores))"
proof -
  obtain x xs where sc: "scores = x # xs" using assms by (cases scores) auto
  define r where "r = bounds_loop scores (0, ns_Score x)"
  have b: "bounds scores = Inr (fst r, snd r)" by (simp add: bounds_def sc r_def)
  have "sint (fst r) = fold max (score_values scores) 0"
    unfolding r_def by (simp only: bounds_loop_highest sint_0)
  also have "\<dots> = Max (set (0 # score_values scores))"
    by (simp only: Max.set_eq_fold)
  also have "\<dots> = max 0 (Max (set (score_values scores)))"
    by (simp add: sc score_values_def)
  finally have h: "sint (fst r) = max 0 (Max (set (score_values scores)))" .
  have "sint (snd r) = fold min (score_values scores) (sint (ns_Score x))"
    unfolding r_def by (simp only: bounds_loop_lowest)
  also have "\<dots> = Min (set (sint (ns_Score x) # score_values scores))"
    by (simp only: Min.set_eq_fold)
  also have "\<dots> = Min (set (score_values scores))"
    by (simp add: sc score_values_def)
  finally have l: "sint (snd r) = Min (set (score_values scores))" .
  show ?thesis using b h l by blast
qed


lemma word_pred_neq: "(x :: int64) \<noteq> x - 1"
  by simp

lemma NormalizeScore_nonempty:
  assumes "scores \<noteq> []"
  shows "\<exists>highest lowest0.
           bounds scores = Inr (highest, lowest0) \<and>
           sint highest = max 0 (Max (set (score_values scores))) \<and>
           sint lowest0 = Min (set (score_values scores)) \<and>
           NormalizeScore scores =
             Inr (map (\<lambda>n. n\<lparr>ns_Score :=
                          rescale (if highest = lowest0 then lowest0 - 1 else lowest0)
                            highest (ns_Score n)\<rparr>) scores,
                  NewStatus Success '''')"
proof -
  obtain highest lowest0 where b: "bounds scores = Inr (highest, lowest0)"
    and h: "sint highest = max 0 (Max (set (score_values scores)))"
    and l: "sint lowest0 = Min (set (score_values scores))"
    using bounds_nonempty [OF assms] by blast
  define lowest where "lowest = (if highest = lowest0 then lowest0 - 1 else lowest0)"
  have ne: "highest \<noteq> lowest"
    by (simp add: lowest_def)
  have "NormalizeScore scores =
          Inr (map (\<lambda>n. n\<lparr>ns_Score := rescale lowest highest (ns_Score n)\<rparr>) scores,
               NewStatus Success '''')"
    by (simp add: NormalizeScore_def b rewrite_loop_total [OF ne] flip: lowest_def)
  then show ?thesis
    using b h l unfolding lowest_def by blast
qed

lemma Min_le_Max_values:
  assumes "scores \<noteq> []"
  shows "Min (set (score_values scores)) \<le> Max (set (score_values scores))"
proof -
  have "set (score_values scores) \<noteq> {}" using assms by (simp add: score_values_def)
  then show ?thesis by (simp add: Min_le_iff)
qed


lemma sint_sub_exact:
  fixes a b :: int64
  assumes "- (2 ^ 63) \<le> sint a - sint b" and "sint a - sint b < 2 ^ 63"
  shows "sint (a - b) = sint a - sint b"
proof -
  have "sint (a - b) = signed_take_bit 63 (sint a - sint b)"
    by (simp add: sint_word_ariths)
  also have "\<dots> = sint a - sint b"
    using assms by (simp add: signed_take_bit_int_eq_self)
  finally show ?thesis .
qed

lemma sint_mult_100_exact:
  fixes a :: int64
  assumes "0 \<le> sint a" and "sint a * 100 < 2 ^ 63"
  shows "sint (a * MaxNodeScore) = sint a * 100"
proof -
  have "sint (a * MaxNodeScore) = signed_take_bit 63 (sint a * sint (100 :: int64))"
    by (simp add: sint_word_ariths MaxNodeScore_def)
  also have "\<dots> = signed_take_bit 63 (sint a * 100)"
    by simp
  also have "\<dots> = sint a * 100"
    using assms by (simp add: signed_take_bit_int_eq_self)
  finally show ?thesis .
qed

lemma sint_word_of_int_small:
  assumes "0 \<le> k" and "k \<le> 100"
  shows "sint (word_of_int k :: int64) = k"
proof -
  have "sint (word_of_int k :: int64) = signed_take_bit 63 k"
    by (simp add: sint_sbintrunc')
  also have "\<dots> = k"
    using assms by (simp add: signed_take_bit_int_eq_self)
  finally show ?thesis .
qed

lemma rescale_range:
  assumes lo: "sint lowest \<le> sint s" and hi: "sint s \<le> sint highest"
    and lt: "sint lowest < sint highest"
    and fit: "(sint highest - sint lowest) * 100 < 2 ^ 63"
  shows "0 \<le> sint (rescale lowest highest s) \<and> sint (rescale lowest highest s) \<le> 100"
proof -
  define d where "d = sint s - sint lowest"
  define D where "D = sint highest - sint lowest"
  have d0: "0 \<le> d" and dD: "d \<le> D" and D0: "0 < D"
    using lo hi lt by (simp_all add: d_def D_def)
  have D100: "D * 100 < 2 ^ 63" using fit by (simp add: D_def)
  have Dlt: "D < 2 ^ 63" using D100 D0 by linarith
  have d100: "d * 100 < 2 ^ 63" using D100 dD by linarith
  have sd: "sint (s - lowest) = d"
    unfolding d_def using d0 dD Dlt by (intro sint_sub_exact) (simp_all add: d_def)
  have sD: "sint (highest - lowest) = D"
    unfolding D_def using D0 Dlt by (intro sint_sub_exact) (simp_all add: D_def)
  have sm: "sint ((s - lowest) * MaxNodeScore) = d * 100"
    using sint_mult_100_exact [of "s - lowest"] d0 d100 by (simp add: sd)
  have q: "(d * 100) sdiv D = (d * 100) div D"
    using d0 D0 by (simp add: signed_divide_int_def sgn_if)
  have q0: "0 \<le> (d * 100) div D"
    using d0 D0 by (simp add: pos_imp_zdiv_nonneg_iff)
  have "(d * 100) div D \<le> (D * 100) div D"
    using dD D0 by (intro zdiv_mono1) simp_all
  also have "\<dots> = 100" using D0 by simp
  finally have q100: "(d * 100) div D \<le> 100" .
  have "sint (rescale lowest highest s) = (d * 100) div D"
    unfolding rescale_def sm sD q using q0 q100 by (rule sint_word_of_int_small)
  then show ?thesis using q0 q100 by simp
qed


lemma value_between:
  assumes "n \<in> set scores"
  shows "Min (set (score_values scores)) \<le> sint (ns_Score n) \<and>
         sint (ns_Score n) \<le> Max (set (score_values scores))"
proof -
  have "sint (ns_Score n) \<in> set (score_values scores)"
    using assms by (simp add: score_values_def)
  then show ?thesis by simp
qed

lemma rescale_degenerate: "rescale (c - 1) c c = MaxNodeScore"
proof -
  have "rescale (c - 1) c c = word_of_int (sint MaxNodeScore sdiv sint (1 :: int64))"
    by (simp add: rescale_def)
  also have "\<dots> = MaxNodeScore" by simp
  finally show ?thesis .
qed

lemma NormalizeScore_in_range:
  assumes ne: "scores \<noteq> []"
    and fit: "(max 0 (Max (set (score_values scores))) - Min (set (score_values scores))) * 100
                < 2 ^ 63"
  shows "\<exists>out. NormalizeScore scores = Inr (out, NewStatus Success '''') \<and>
           (\<forall>n \<in> set out. 0 \<le> sint (ns_Score n) \<and> sint (ns_Score n) \<le> 100)"
proof -
  obtain highest lowest0 where
        h: "sint highest = max 0 (Max (set (score_values scores)))"
    and l: "sint lowest0 = Min (set (score_values scores))"
    and N: "NormalizeScore scores =
             Inr (map (\<lambda>n. n\<lparr>ns_Score :=
                          rescale (if highest = lowest0 then lowest0 - 1 else lowest0)
                            highest (ns_Score n)\<rparr>) scores,
                  NewStatus Success '''')"
    using NormalizeScore_nonempty [OF ne] by blast
  have "0 \<le> sint (rescale (if highest = lowest0 then lowest0 - 1 else lowest0) highest (ns_Score n))
        \<and> sint (rescale (if highest = lowest0 then lowest0 - 1 else lowest0) highest (ns_Score n))
            \<le> 100"
    if n: "n \<in> set scores" for n
  proof (cases "highest = lowest0")
    case True
    have "sint (ns_Score n) = sint lowest0"
      using value_between [OF n] h l True by simp
    then have "ns_Score n = lowest0" by (rule signed_word_eqI)
    then show ?thesis
      using True by (simp add: rescale_degenerate MaxNodeScore_def)
  next
    case False
    have "sint lowest0 \<le> sint highest"
      using Min_le_Max_values [OF ne] h l by simp
    moreover have "sint lowest0 \<noteq> sint highest"
      using False by (auto dest: signed_word_eqI)
    ultimately have lt: "sint lowest0 < sint highest" by simp
    have lo: "sint lowest0 \<le> sint (ns_Score n)"
      using value_between [OF n] l by simp
    have hi: "sint (ns_Score n) \<le> sint highest"
      using value_between [OF n] h by linarith
    have fit': "(sint highest - sint lowest0) * 100 < 2 ^ 63"
      using fit h l by simp
    show ?thesis
      using False rescale_range [OF lo hi lt fit'] by simp
  qed
  then show ?thesis using N by auto
qed

lemma NormalizeScore_uniform_nonneg:
  assumes ne: "scores \<noteq> []"
    and same: "\<forall>n \<in> set scores. ns_Score n = c"
    and nonneg: "0 \<le> sint c"
  shows "NormalizeScore scores =
           Inr (map (\<lambda>n. n\<lparr>ns_Score := 100\<rparr>) scores, NewStatus Success '''')"
proof -
  obtain highest lowest0 where
        h: "sint highest = max 0 (Max (set (score_values scores)))"
    and l: "sint lowest0 = Min (set (score_values scores))"
    and N: "NormalizeScore scores =
             Inr (map (\<lambda>n. n\<lparr>ns_Score :=
                          rescale (if highest = lowest0 then lowest0 - 1 else lowest0)
                            highest (ns_Score n)\<rparr>) scores,
                  NewStatus Success '''')"
    using NormalizeScore_nonempty [OF ne] by blast
  have "set (score_values scores) = {sint c}"
    using ne same by (cases scores) (auto simp: score_values_def)
  then have "sint highest = sint c" and "sint lowest0 = sint c"
    using h l nonneg by simp_all
  then have hc: "highest = c" and lc: "lowest0 = c" by (simp_all add: signed_word_eqI)
  have "map (\<lambda>n. n\<lparr>ns_Score := rescale (c - 1) c (ns_Score n)\<rparr>) scores =
        map (\<lambda>n. n\<lparr>ns_Score := 100\<rparr>) scores"
    using same by (simp add: rescale_degenerate MaxNodeScore_def)
  then show ?thesis using N by (simp add: hc lc)
qed

subsection \<open>The claims about NormalizeScore\<close>

text \<open>
  Claim C1 says that NormalizeScore takes the empty score list as a no-op and returns
  success without a fault. The function reads \<^verbatim>\<open>scores[0].Score\<close> before anything
  else, so on the empty list it panics with an index out of range: no status is
  returned and no score is rewritten.
\<close>

theorem NormalizeScore_empty_panics:
  "NormalizeScore [] = Inl IndexOutOfRange"
  by (simp add: NormalizeScore_def bounds_def)

text \<open>
  Claim C2 says that for every non-empty list the bounds are \<open>lowest\<close> = the minimum
  and \<open>highest\<close> = the maximum of the scores, also when every score is negative.
  \<open>lowest\<close> starts at the first score but \<open>highest\<close> starts at 0, so the loop leaves
  \<open>highest\<close> = max(0, maximum) (\<open>bounds_nonempty\<close>). On the scores -5 and -3 the bounds
  are \<open>highest\<close> = 0 and \<open>lowest\<close> = -5, while the maximum is -3.
\<close>

theorem bounds_all_negative:
  "bounds [\<lparr>ns_Name = ''n1'', ns_Score = - 5\<rparr>, \<lparr>ns_Name = ''n2'', ns_Score = - 3\<rparr>]
     = Inr (0, - 5) \<and>
   Max (set (score_values
     [\<lparr>ns_Name = ''n1'', ns_Score = - 5\<rparr>, \<lparr>ns_Name = ''n2'', ns_Score = - 3\<rparr>])) = - 3"
  by (simp add: bounds_def score_values_def word_sless_alt)

text \<open>
  Claim C3 says that whenever all scores of a non-empty list are equal, \<open>lowest\<close> is
  decremented and every score is rewritten to MaxNodeScore = 100. For equal scores
  that are not negative this is what happens (\<open>NormalizeScore_uniform_nonneg\<close>). For
  equal negative scores \<open>highest\<close> stays 0 and differs from \<open>lowest\<close>, nothing is
  decremented, and every score is rewritten to 0: the scores -1, -1, -1 become
  0, 0, 0.
\<close>

theorem NormalizeScore_uniform_negative:
  "NormalizeScore
     [\<lparr>ns_Name = ''n1'', ns_Score = - 1\<rparr>, \<lparr>ns_Name = ''n2'', ns_Score = - 1\<rparr>,
      \<lparr>ns_Name = ''n3'', ns_Score = - 1\<rparr>]
   = Inr ([\<lparr>ns_Name = ''n1'', ns_Score = 0\<rparr>, \<lparr>ns_Name = ''n2'', ns_Score = 0\<rparr>,
           \<lparr>ns_Name = ''n3'', ns_Score = 0\<rparr>], NewStatus Success '''')"
  by (simp add: NormalizeScore_def bounds_def div_int64_def word_sless_alt)

lemma NormalizeScore_rewrites_nonneg_max:
  assumes "scores \<noteq> []"
    and "Min (set (score_values scores)) \<noteq> Max (set (score_values scores))"
    and "0 \<le> Max (set (score_values scores))"
  shows "\<exists>highest lowest out.
           sint lowest = Min (set (score_values scores)) \<and>
           sint highest = Max (set (score_values scores)) \<and>
           NormalizeScore scores = Inr (out, NewStatus Success '''') \<and>
           length out = length scores \<and>
           (\<forall>i < length scores.
              div_int64 ((ns_Score (scores ! i) - lowest) * 100) (highest - lowest)
                = Inr (ns_Score (out ! i)))"
proof -
  obtain highest lowest0 where
        h: "sint highest = max 0 (Max (set (score_values scores)))"
    and l: "sint lowest0 = Min (set (score_values scores))"
    and N: "NormalizeScore scores =
             Inr (map (\<lambda>n. n\<lparr>ns_Score :=
                          rescale (if highest = lowest0 then lowest0 - 1 else lowest0)
                            highest (ns_Score n)\<rparr>) scores,
                  NewStatus Success '''')"
    using NormalizeScore_nonempty [OF assms(1)] by blast
  have h': "sint highest = Max (set (score_values scores))"
    using h assms(3) by simp
  have "sint lowest0 < sint highest"
    using Min_le_Max_values [OF assms(1)] assms(2) h' l by linarith
  then have ne: "highest \<noteq> lowest0" by auto
  define out where "out = map (\<lambda>n. n\<lparr>ns_Score := rescale lowest0 highest (ns_Score n)\<rparr>) scores"
  have N': "NormalizeScore scores = Inr (out, NewStatus Success '''')"
    using N ne by (simp add: out_def)
  have len: "length out = length scores" by (simp add: out_def)
  have "div_int64 ((ns_Score (scores ! i) - lowest0) * 100) (highest - lowest0)
          = Inr (ns_Score (out ! i))" if "i < length scores" for i
    using that ne by (simp add: out_def div_int64_def rescale_def MaxNodeScore_def)
  then show ?thesis using h' l N' len by blast
qed

lemma NormalizeScore_0_50_100:
  "NormalizeScore
     [\<lparr>ns_Name = ''n1'', ns_Score = 0\<rparr>, \<lparr>ns_Name = ''n2'', ns_Score = 50\<rparr>,
      \<lparr>ns_Name = ''n3'', ns_Score = 100\<rparr>]
   = Inr ([\<lparr>ns_Name = ''n1'', ns_Score = 0\<rparr>, \<lparr>ns_Name = ''n2'', ns_Score = 50\<rparr>,
           \<lparr>ns_Name = ''n3'', ns_Score = 100\<rparr>], NewStatus Success '''')"
  by (simp add: NormalizeScore_def bounds_def div_int64_def MaxNodeScore_def
        signed_divide_int_def word_sless_alt)

text \<open>
  Claim C4 says that for every non-empty list whose minimum and maximum differ, each
  score is rewritten to \<^verbatim>\<open>(score - lowest) * 100 / (highest - lowest)\<close> with \<open>lowest\<close>
  the minimum and \<open>highest\<close> the maximum of the list. The function does so when the
  maximum is not negative (\<open>NormalizeScore_rewrites_nonneg_max\<close>), for instance on
  0, 50, 100 (\<open>NormalizeScore_0_50_100\<close>). When every score is negative \<open>highest\<close> is
  0 instead of the maximum: the scores -5 and -3 have minimum -5 and maximum -3, the
  formula of the claim gives 0 and \<^verbatim>\<open>(-3 - -5) * 100 / (-3 - -5)\<close> = 100, and the
  function rewrites them to 0 and \<^verbatim>\<open>(-3 - -5) * 100 / (0 - -5)\<close> = 40.
\<close>

theorem NormalizeScore_all_negative:
  "NormalizeScore
     [\<lparr>ns_Name = ''n1'', ns_Score = - 5\<rparr>, \<lparr>ns_Name = ''n2'', ns_Score = - 3\<rparr>]
   = Inr ([\<lparr>ns_Name = ''n1'', ns_Score = 0\<rparr>, \<lparr>ns_Name = ''n2'', ns_Score = 40\<rparr>],
          NewStatus Success '''') \<and>
   Min (set (score_values
     [\<lparr>ns_Name = ''n1'', ns_Score = - 5\<rparr>, \<lparr>ns_Name = ''n2'', ns_Score = - 3\<rparr>])) = - 5 \<and>
   Max (set (score_values
     [\<lparr>ns_Name = ''n1'', ns_Score = - 5\<rparr>, \<lparr>ns_Name = ''n2'', ns_Score = - 3\<rparr>])) = - 3 \<and>
   div_int64 ((- 5 - (- 5)) * 100) (- 3 - (- 5)) = Inr 0 \<and>
   div_int64 ((- 3 - (- 5)) * 100) (- 3 - (- 5)) = Inr 100"
  by (simp add: NormalizeScore_def bounds_def div_int64_def MaxNodeScore_def
        signed_divide_int_def word_sless_alt score_values_def)

text \<open>
  Claim C8 says that for every non-empty list each rewritten score lies between 0 and
  MaxNodeScore = 100. This holds as long as \<^verbatim>\<open>(highest - lowest) * 100\<close> fits into a
  signed 64-bit integer (\<open>NormalizeScore_in_range\<close>). Beyond that the product
  \<^verbatim>\<open>(score - lowest) * 100\<close> wraps around: on the scores 0 and 10^17 the second
  score is rewritten to -84.
\<close>

theorem NormalizeScore_overflow:
  "NormalizeScore
     [\<lparr>ns_Name = ''n1'', ns_Score = 0\<rparr>, \<lparr>ns_Name = ''n2'', ns_Score = 100000000000000000\<rparr>]
   = Inr ([\<lparr>ns_Name = ''n1'', ns_Score = 0\<rparr>, \<lparr>ns_Name = ''n2'', ns_Score = - 84\<rparr>],
          NewStatus Success '''') \<and>
   sint (- 84 :: int64) = - 84"
  by (simp add: NormalizeScore_def bounds_def div_int64_def MaxNodeScore_def
        signed_divide_int_def word_sless_alt)

text \<open>
  Claim C10: for every non-empty list of node scores, NormalizeScore returns success
  with a list of the same length whose entries are, position by position, the
  entries of the input with only the score field changed; in particular the names
  and their order are unchanged.
\<close>

theorem NormalizeScore_frame:
  assumes "scores \<noteq> []"
  shows "\<exists>out. NormalizeScore scores = Inr (out, NewStatus Success '''') \<and>
           length out = length scores \<and>
           map ns_Name out = map ns_Name scores \<and>
           (\<forall>i < length scores. out ! i = (scores ! i)\<lparr>ns_Score := ns_Score (out ! i)\<rparr>)"
proof -
  obtain f where N: "NormalizeScore scores =
      Inr (map (\<lambda>n. n\<lparr>ns_Score := f (ns_Score n)\<rparr>) scores, NewStatus Success '''')"
    using NormalizeScore_nonempty [OF assms] by blast
  show ?thesis
    unfolding N
    by (rule exI [of _ "map (\<lambda>n. n\<lparr>ns_Score := f (ns_Score n)\<rparr>) scores"])
      (simp add: comp_def)
qed

theorem NormalizeScore_frame_witness:
  "[\<lparr>ns_Name = ''n1'', ns_Score = 7\<rparr>, \<lparr>ns_Name = ''n2'', ns_Score = 3\<rparr>] \<noteq> [] \<and>
   NormalizeScore [\<lparr>ns_Name = ''n1'', ns_Score = 7\<rparr>, \<lparr>ns_Name = ''n2'', ns_Score = 3\<rparr>]
   = Inr ([\<lparr>ns_Name = ''n1'', ns_Score = 100\<rparr>, \<lparr>ns_Name = ''n2'', ns_Score = 0\<rparr>],
          NewStatus Success '''')"
  using NormalizeScore_frame
    [of "[\<lparr>ns_Name = ''n1'', ns_Score = 7\<rparr>, \<lparr>ns_Name = ''n2'', ns_Score = 3\<rparr>]"]
  by (simp add: NormalizeScore_def bounds_def div_int64_def MaxNodeScore_def
        signed_divide_int_def word_sless_alt)

section \<open>Properties of Filter\<close>

lemma first_fit_None:
  "first_fit n ds = None \<longleftrightarrow> (\<forall>d \<in> set ds. count d < n)"
  by (induction ds) auto

lemma first_fit_Some:
  "first_fit n ds = Some i \<longleftrightarrow>
     i < length ds \<and> n \<le> count (ds ! i) \<and> (\<forall>j < i. count (ds ! j) < n)"
proof (induction ds arbitrary: i)
  case Nil
  show ?case by simp
next
  case (Cons d ds)
  show ?case
  proof (cases "n \<le> count d")
    case True
    then show ?thesis by (cases i) auto
  next
    case False
    show ?thesis
    proof (cases i)
      case 0
      then show ?thesis using False by simp
    next
      case (Suc k)
      have "(\<forall>j < Suc k. count ((d # ds) ! j) < n) \<longleftrightarrow> (\<forall>j < k. count (ds ! j) < n)"
        using False by (auto simp: less_Suc_eq_0_disj)
      then show ?thesis using False Suc Cons.IH [of k] by auto
    qed
  qed
qed

lemma Filter_lookup_ok:
  assumes "scvClient y (node_Name node) = Inr inventory"
  shows "Filter y pod node =
     (case first_fit (req_count pod) inventory of
        None \<Rightarrow> (NewStatus Unschedulable (''Node:'' @ node_Name node), [CallPodFitsNumber])
      | Some i \<Rightarrow>
          (if req_memoryPerUnit pod \<le> memoryPerUnit (inventory ! i) \<and>
              req_clockPerUnit pod \<le> clockPerUnit (inventory ! i)
           then NewStatus Success ''''
           else NewStatus Unschedulable (''Node:'' @ node_Name node),
           [CallPodFitsNumber, CallPodFitsMemory, CallPodFitsClock]))"
proof (cases "first_fit (req_count pod) inventory")
  case None
  then show ?thesis by (simp add: Filter_def assms PodFitsNumber_def)
next
  case (Some i)
  then have "i < length inventory" by (simp add: first_fit_Some)
  then show ?thesis
    by (simp add: Filter_def assms PodFitsNumber_def Some PodFitsMemory_def PodFitsClock_def
          Let_def)
qed

lemma Filter_lookup_failed:
  assumes "scvClient y (node_Name node) = Inl err"
  shows "Filter y pod node =
           (NewStatus Unschedulable (''Node:'' @ node_Name node @ '' '' @ err), [])"
  by (simp add: Filter_def assms)

text \<open>
  Claim C5: for every request and every inventory the store returns for the node,
  Filter short-circuits on the device-count check. If no device entry has a free
  count of at least the requested count, Filter returns the unschedulable status at
  once and calls neither PodFitsMemory nor PodFitsClock (these are called only after
  the count check has passed). Filter returns success if and only if the count
  check, the memory check on the matched device and the clock check on the matched
  device all pass, that is, if and only if the first device entry with enough free
  units also has enough memory and clock per unit; otherwise the status is the
  unschedulable one that carries only the node name.
\<close>

theorem Filter_short_circuit:
  assumes "scvClient y (node_Name node) = Inr inventory"
  shows "((\<forall>d \<in> set inventory. count d < req_count pod) \<longrightarrow>
            Filter y pod node =
              (NewStatus Unschedulable (''Node:'' @ node_Name node), [CallPodFitsNumber])) \<and>
         (CallPodFitsMemory \<in> set (snd (Filter y pod node)) \<or>
          CallPodFitsClock \<in> set (snd (Filter y pod node)) \<longrightarrow>
            fst (PodFitsNumber pod inventory)) \<and>
         (fst (Filter y pod node) = NewStatus Success '''' \<longleftrightarrow>
            fst (PodFitsNumber pod inventory) \<and>
            PodFitsMemory (snd (PodFitsNumber pod inventory)) pod inventory \<and>
            PodFitsClock (snd (PodFitsNumber pod inventory)) pod inventory) \<and>
         (fst (Filter y pod node) = NewStatus Success '''' \<longleftrightarrow>
            (\<exists>i < length inventory.
               req_count pod \<le> count (inventory ! i) \<and>
               (\<forall>j < i. count (inventory ! j) < req_count pod) \<and>
               req_memoryPerUnit pod \<le> memoryPerUnit (inventory ! i) \<and>
               req_clockPerUnit pod \<le> clockPerUnit (inventory ! i))) \<and>
         (fst (Filter y pod node) \<noteq> NewStatus Success '''' \<longrightarrow>
            fst (Filter y pod node) = NewStatus Unschedulable (''Node:'' @ node_Name node))"
proof (cases "first_fit (req_count pod) inventory")
  case None
  have F: "Filter y pod node =
      (NewStatus Unschedulable (''Node:'' @ node_Name node), [CallPodFitsNumber])"
    by (simp add: Filter_lookup_ok [OF assms] None)
  have no: "\<not> (\<exists>i < length inventory.
               req_count pod \<le> count (inventory ! i) \<and>
               (\<forall>j < i. count (inventory ! j) < req_count pod) \<and>
               req_memoryPerUnit pod \<le> memoryPerUnit (inventory ! i) \<and>
               req_clockPerUnit pod \<le> clockPerUnit (inventory ! i))"
  proof
    assume "\<exists>i < length inventory.
               req_count pod \<le> count (inventory ! i) \<and>
               (\<forall>j < i. count (inventory ! j) < req_count pod) \<and>
               req_memoryPerUnit pod \<le> memoryPerUnit (inventory ! i) \<and>
               req_clockPerUnit pod \<le> clockPerUnit (inventory ! i)"
    then obtain i where "i < length inventory" "req_count pod \<le> count (inventory ! i)"
      by blast
    moreover have "count (inventory ! i) < req_count pod" if "i < length inventory" for i
      using None that by (simp add: first_fit_None)
    ultimately show False by fastforce
  qed
  show ?thesis
    using no by (simp add: F PodFitsNumber_def None NewStatus_def)
next
  case (Some i)
  have i: "i < length inventory" "req_count pod \<le> count (inventory ! i)"
      "\<forall>j < i. count (inventory ! j) < req_count pod"
    using Some by (simp_all add: first_fit_Some)
  have uniq: "k = i" if "k < length inventory" "req_count pod \<le> count (inventory ! k)"
      "\<forall>j < k. count (inventory ! j) < req_count pod" for k
  proof -
    have "first_fit (req_count pod) inventory = Some k"
      using that by (simp add: first_fit_Some)
    then show ?thesis using Some by simp
  qed
  have some: "\<not> (\<forall>d \<in> set inventory. count d < req_count pod)"
    using Some by (simp add: first_fit_None [symmetric])
  have ex: "(\<exists>k < length inventory.
               req_count pod \<le> count (inventory ! k) \<and>
               (\<forall>j < k. count (inventory ! j) < req_count pod) \<and>
               req_memoryPerUnit pod \<le> memoryPerUnit (inventory ! k) \<and>
               req_clockPerUnit pod \<le> clockPerUnit (inventory ! k)) \<longleftrightarrow>
            (req_memoryPerUnit pod \<le> memoryPerUnit (inventory ! i) \<and>
             req_clockPerUnit pod \<le> clockPerUnit (inventory ! i))"
    using i uniq by blast
  show ?thesis
    using some i(1)
    by (simp add: Filter_lookup_ok [OF assms] Some ex PodFitsNumber_def PodFitsMemory_def
          PodFitsClock_def NewStatus_def)
qed

theorem Filter_short_circuit_witness:
  "scvClient \<lparr>handle = (\<lambda>n. Inl ''none''),
              scvClient = (\<lambda>n. Inr [\<lparr>count = 0, memoryPerUnit = 16, clockPerUnit = 8\<rparr>])\<rparr>
     (node_Name \<lparr>node_Name = ''M2''\<rparr>)
     = Inr [\<lparr>count = 0, memoryPerUnit = 16, clockPerUnit = 8\<rparr>] \<and>
   Filter \<lparr>handle = (\<lambda>n. Inl ''none''),
           scvClient = (\<lambda>n. Inr [\<lparr>count = 0, memoryPerUnit = 16, clockPerUnit = 8\<rparr>])\<rparr>
     \<lparr>pod_Name = ''p'', req_count = 1, req_memoryPerUnit = 4, req_clockPerUnit = 2\<rparr>
     \<lparr>node_Name = ''M2''\<rparr>
     = (NewStatus Unschedulable (''Node:'' @ ''M2''), [CallPodFitsNumber])"
proof -
  let ?y = "\<lparr>handle = (\<lambda>n. Inl ''none''),
             scvClient = (\<lambda>n. Inr [\<lparr>count = 0, memoryPerUnit = 16, clockPerUnit = 8\<rparr>])\<rparr>"
  let ?node = "\<lparr>node_Name = ''M2''\<rparr>"
  let ?pod = "\<lparr>pod_Name = ''p'', req_count = 1, req_memoryPerUnit = 4, req_clockPerUnit = 2\<rparr>"
  have h: "scvClient ?y (node_Name ?node)
             = Inr [\<lparr>count = 0, memoryPerUnit = 16, clockPerUnit = 8\<rparr>]"
    by simp
  have "Filter ?y ?pod ?node
          = (NewStatus Unschedulable (''Node:'' @ node_Name ?node), [CallPodFitsNumber])"
    by (rule Filter_short_circuit [OF h, THEN conjunct1, THEN mp]) simp
  then show ?thesis using h by simp
qed

text \<open>
  Claim C6: when the inventory lookup for the node fails, Filter returns a status
  with code Unschedulable, not Error, whose message is the node name followed by a
  blank and the text of the lookup error. That status differs from the status of an
  infeasible node, for the same node under any store that answers and any request:
  the infeasible status carries only the node name.
\<close>

theorem Filter_lookup_failure_distinct:
  assumes "scvClient y (node_Name node) = Inl err"
  shows "fst (Filter y pod node) =
           NewStatus Unschedulable (''Node:'' @ node_Name node @ '' '' @ err) \<and>
         code (fst (Filter y pod node)) = Unschedulable \<and>
         code (fst (Filter y pod node)) \<noteq> Error \<and>
         fst (Filter y pod node) \<noteq> NewStatus Unschedulable (''Node:'' @ node_Name node) \<and>
         (\<forall>y' pod' inventory.
            scvClient y' (node_Name node) = Inr inventory \<and>
            fst (Filter y' pod' node) \<noteq> NewStatus Success '''' \<longrightarrow>
              fst (Filter y' pod' node) = NewStatus Unschedulable (''Node:'' @ node_Name node) \<and>
              fst (Filter y' pod' node) \<noteq> fst (Filter y pod node))"
proof -
  have F: "fst (Filter y pod node) =
             NewStatus Unschedulable (''Node:'' @ node_Name node @ '' '' @ err)"
    by (simp add: Filter_lookup_failed [OF assms])
  have ne: "NewStatus Unschedulable (''Node:'' @ node_Name node @ '' '' @ err) \<noteq>
            NewStatus Unschedulable (''Node:'' @ node_Name node)"
    by (simp add: NewStatus_def)
  have inf: "fst (Filter y' pod' node) = NewStatus Unschedulable (''Node:'' @ node_Name node)"
    if "scvClient y' (node_Name node) = Inr inventory"
      and "fst (Filter y' pod' node) \<noteq> NewStatus Success ''''" for y' pod' inventory
    using that
    by (simp add: Filter_lookup_ok [OF that(1)] split: option.splits if_splits)
  have dist: "fst (Filter y' pod' node) = NewStatus Unschedulable (''Node:'' @ node_Name node) \<and>
              fst (Filter y' pod' node) \<noteq> fst (Filter y pod node)"
    if "scvClient y' (node_Name node) = Inr inventory \<and>
        fst (Filter y' pod' node) \<noteq> NewStatus Success []" for y' pod' inventory
  proof -
    have "fst (Filter y' pod' node) = NewStatus Unschedulable (''Node:'' @ node_Name node)"
      using that inf by blast
    then show ?thesis using ne by (simp add: F)
  qed
  have c: "code (NewStatus Unschedulable (''Node:'' @ node_Name node @ '' '' @ err)) = Unschedulable"
    by (simp add: NewStatus_def)
  show ?thesis
    using F ne dist c by (intro conjI allI impI) simp_all
qed

theorem Filter_lookup_failure_distinct_witness:
  "scvClient \<lparr>handle = (\<lambda>n. Inl ''none''), scvClient = (\<lambda>n. Inl ''store unavailable'')\<rparr>
     (node_Name \<lparr>node_Name = ''M1''\<rparr>) = Inl ''store unavailable'' \<and>
   Filter \<lparr>handle = (\<lambda>n. Inl ''none''), scvClient = (\<lambda>n. Inl ''store unavailable'')\<rparr>
     \<lparr>pod_Name = ''p'', req_count = 1, req_memoryPerUnit = 4, req_clockPerUnit = 2\<rparr>
     \<lparr>node_Name = ''M1''\<rparr>
     = (NewStatus Unschedulable ''Node:M1 store unavailable'', []) \<and>
   Filter \<lparr>handle = (\<lambda>n. Inl ''none''),
           scvClient = (\<lambda>n. Inr [\<lparr>count = 1, memoryPerUnit = 2, clockPerUnit = 1\<rparr>])\<rparr>
     \<lparr>pod_Name = ''p'', req_count = 1, req_memoryPerUnit = 4, req_clockPerUnit = 2\<rparr>
     \<lparr>node_Name = ''M1''\<rparr>
     = (NewStatus Unschedulable ''Node:M1'',
        [CallPodFitsNumber, CallPodFitsMemory, CallPodFitsClock])"
  using Filter_lookup_failure_distinct
    [of "\<lparr>handle = (\<lambda>n. Inl ''none''), scvClient = (\<lambda>n. Inl ''store unavailable'')\<rparr>"
        "\<lparr>node_Name = ''M1''\<rparr>" "''store unavailable''"
        "\<lparr>pod_Name = ''p'', req_count = 1, req_memoryPerUnit = 4, req_clockPerUnit = 2\<rparr>"]
  by (simp add: Filter_def PodFitsNumber_def PodFitsMemory_def PodFitsClock_def)

section \<open>Properties of Score\<close>

lemma CalculateScore_missing:
  assumes "state DeviceCount = None \<or> state Memory = None \<or> state Clock = None"
  shows "CalculateScore combine inventory state pod info = Inl ''AggregationMissing''"
  using assms by (auto simp: CalculateScore_def split: option.splits)

text \<open>
  Claim C7: whenever one of the three maxima is absent from the cycle state, Score
  returns the score 0 together with a status of code Error, never Success; when
  both lookups for the node succeed, that status carries the error of the score
  calculation, prefixed with "Score Node Error: ".
\<close>

theorem Score_missing_maximum:
  assumes "state DeviceCount = None \<or> state Memory = None \<or> state Clock = None"
  shows "fst (Score y fmt_q combine Uint64ToInt64 state p nodeName) = 0 \<and>
         code (snd (Score y fmt_q combine Uint64ToInt64 state p nodeName)) = Error \<and>
         code (snd (Score y fmt_q combine Uint64ToInt64 state p nodeName)) \<noteq> Success \<and>
         (\<forall>nodeInfo inventory.
            handle y nodeName = Inr nodeInfo \<and> scvClient y nodeName = Inr inventory \<longrightarrow>
              Score y fmt_q combine Uint64ToInt64 state p nodeName =
                (0, NewStatus Error ''Score Node Error: AggregationMissing''))"
  by (simp add: Score_def CalculateScore_missing [OF assms] NewStatus_def split: sum.splits)

theorem Score_missing_maximum_witness:
  "(Map.empty :: CycleState) DeviceCount = None \<and>
   Score \<lparr>handle = (\<lambda>n. Inr \<lparr>node_Name = n\<rparr>),
          scvClient = (\<lambda>n. Inr [\<lparr>count = 2, memoryPerUnit = 8, clockPerUnit = 4\<rparr>])\<rparr>
     (\<lambda>s. s) (\<lambda>maxCount maxMemory maxClock inventory pod info. 7) (\<lambda>u. u) Map.empty
     \<lparr>pod_Name = ''p'', req_count = 1, req_memoryPerUnit = 4, req_clockPerUnit = 2\<rparr> ''M1''
     = (0, NewStatus Error ''Score Node Error: AggregationMissing'')"
  using Score_missing_maximum
    [of Map.empty
        "\<lparr>handle = (\<lambda>n. Inr \<lparr>node_Name = n\<rparr>),
          scvClient = (\<lambda>n. Inr [\<lparr>count = 2, memoryPerUnit = 8, clockPerUnit = 4\<rparr>])\<rparr>"
        "\<lambda>s. s" "\<lambda>maxCount maxMemory maxClock inventory pod info. 7" "\<lambda>u. u"
        "\<lparr>pod_Name = ''p'', req_count = 1, req_memoryPerUnit = 4, req_clockPerUnit = 2\<rparr>"
        "''M1''"]
  by simp

section \<open>Properties of Less\<close>

text \<open>
  Claim C9: Less is a strict weak ordering of pending workloads. It is irreflexive
  and asymmetric, it is transitive, and being unordered either way is transitive as
  well.
\<close>

theorem Less_strict_weak_order:
  "\<not> Less a a \<and>
   \<not> (Less a b \<and> Less b a) \<and>
   (Less a b \<and> Less b c \<longrightarrow> Less a c) \<and>
   (\<not> Less a b \<and> \<not> Less b a \<and> \<not> Less b c \<and> \<not> Less c b \<longrightarrow> \<not> Less a c \<and> \<not> Less c a)"
  unfolding Less_def sort_Less_def by auto

theorem Less_strict_weak_order_witness:
  "Less \<lparr>pi_priority = 5, pi_timestamp = 9\<rparr> \<lparr>pi_priority = 2, pi_timestamp = 1\<rparr> \<and>
   Less \<lparr>pi_priority = 2, pi_timestamp = 1\<rparr> \<lparr>pi_priority = 2, pi_timestamp = 4\<rparr> \<and>
   Less \<lparr>pi_priority = 5, pi_timestamp = 9\<rparr> \<lparr>pi_priority = 2, pi_timestamp = 4\<rparr> \<and>
   \<not> Less \<lparr>pi_priority = 2, pi_timestamp = 1\<rparr> \<lparr>pi_priority = 5, pi_timestamp = 9\<rparr>"
  using Less_strict_weak_order
    [of "\<lparr>pi_priority = 5, pi_timestamp = 9\<rparr>" "\<lparr>pi_priority = 2, pi_timestamp = 1\<rparr>"
        "\<lparr>pi_priority = 2, pi_timestamp = 4\<rparr>"]
  by (simp add: Less_def sort_Less_def)

end
